theory Spec2Isabelle
  imports Complex_Main "HOL-Library.Multiset" "HOL-Library.Sublist"
begin

section \<open>Restaurant POS: the store, the receipt generator and the event handlers\<close>

text \<open>
  The program (\<^verbatim>\<open>main.py\<close>) keeps four SQLite collections (tables, menu, orders, sales),
  writes one PDF receipt per bill and is driven by Tkinter button handlers.

  Conventions of the embedding:
  \<^item> a collection is the list of its rows in insertion order, together with the counter that
    \<^verbatim>\<open>AUTOINCREMENT\<close> keeps for it;
  \<^item> a \<^verbatim>\<open>REAL\<close> column and a Python \<^verbatim>\<open>float\<close> are values of type \<open>real\<close>: the arithmetic
    is the exact one, rounding of binary floating point is not part of the model;
  \<^item> an f-string is kept as the list of its fragments, so that no number formatting has to
    be fixed;
  \<^item> every \<^verbatim>\<open>datetime.now()\<close> is a parameter of the function that reads the clock;
  \<^item> a handler returns the dialog it shows (or the exception that leaves it) and the new
    application state; the re-rendering of widgets reads the store only and is left out.
\<close>

subsection \<open>Text\<close>

datatype frag = Lit string | IntV int | Fix1 real | Fix2 real

type_synonym fstring = "frag list"

subsection \<open>Rows and collections\<close>

record table_row =
  t_id :: int
  t_table_no :: int
  t_status :: string

record menu_row =
  m_id :: int
  m_name :: string
  m_price :: real
  m_category :: string

record order_row =
  o_id :: int
  o_table_no :: int
  o_item_id :: int
  o_item_name :: string
  o_qty :: int
  o_price :: real
  o_status :: string
  o_timestamp :: string

record sale_row =
  s_id :: int
  s_table_no :: int
  s_total :: real
  s_date :: string
  s_receipt_file :: fstring

record database =
  tables :: "table_row list"
  tables_seq :: int
  menu :: "menu_row list"
  menu_seq :: int
  orders :: "order_row list"
  orders_seq :: int
  sales :: "sale_row list"
  sales_seq :: int

text \<open>
  \<^verbatim>\<open>CREATE TABLE IF NOT EXISTS\<close> on a fresh database file gives four empty collections.
\<close>

definition fresh_db :: database where
  "fresh_db = \<lparr>tables = [], tables_seq = 0, menu = [], menu_seq = 0,
               orders = [], orders_seq = 0, sales = [], sales_seq = 0\<rparr>"

text \<open>
  \<^verbatim>\<open>INTEGER PRIMARY KEY AUTOINCREMENT\<close>: the new id is one more than the largest id the
  collection has ever held.
\<close>

definition autoincrement :: "int \<Rightarrow> int list \<Rightarrow> int" where
  "autoincrement seq ids = fold max ids seq + 1"

datatype sql_error = IntegrityError

subsection \<open>\<^verbatim>\<open>init_db\<close>\<close>

text \<open>
  \<^verbatim>\<open>INSERT INTO tables (table_no, status) VALUES (?, ?)\<close>; \<^verbatim>\<open>table_no\<close> is \<^verbatim>\<open>UNIQUE\<close>.
\<close>

definition insert_table :: "int \<Rightarrow> string \<Rightarrow> database \<Rightarrow> sql_error + database" where
  "insert_table t st db =
     (if t \<in> set (map t_table_no (tables db)) then Inl IntegrityError
      else let i = autoincrement (tables_seq db) (map t_id (tables db))
           in Inr (db\<lparr>tables := tables db @ [\<lparr>t_id = i, t_table_no = t, t_status = st\<rparr>],
                      tables_seq := i\<rparr>))"

text \<open>\<^verbatim>\<open>for t in range(1, 9): c.execute("INSERT INTO tables ...", (t, "free"))\<close>\<close>

fun seed_tables :: "int list \<Rightarrow> database \<Rightarrow> sql_error + database" where
  "seed_tables [] db = Inr db"
| "seed_tables (t # ts) db =
     (case insert_table t ''free'' db of
        Inl e \<Rightarrow> Inl e
      | Inr db' \<Rightarrow> seed_tables ts db')"

definition sample_menu :: "(string \<times> real \<times> string) list" where
  "sample_menu =
     [(''Margherita Pizza'', 8.50, ''Pizza''),
      (''Farmhouse Pizza'', 9.50, ''Pizza''),
      (''Veg Burger'', 5.00, ''Burger''),
      (''Chicken Burger'', 6.50, ''Burger''),
      (''Pasta Alfredo'', 7.50, ''Pasta''),
      (''Coke'', 1.50, ''Beverage''),
      (''Orange Juice'', 2.00, ''Beverage''),
      (''French Fries'', 3.00, ''Sides''),
      (''Caesar Salad'', 4.50, ''Salad'')]"

text \<open>\<^verbatim>\<open>INSERT INTO menu (name, price, category) VALUES (?, ?, ?)\<close>\<close>

definition insert_menu :: "string \<times> real \<times> string \<Rightarrow> database \<Rightarrow> database" where
  "insert_menu item db =
     (case item of (name, price, category) \<Rightarrow>
        let i = autoincrement (menu_seq db) (map m_id (menu db))
        in db\<lparr>menu := menu db @ [\<lparr>m_id = i, m_name = name, m_price = price,
                                    m_category = category\<rparr>],
               menu_seq := i\<rparr>)"

text \<open>\<^verbatim>\<open>c.executemany(..., sample_menu)\<close>\<close>

definition seed_menu :: "(string \<times> real \<times> string) list \<Rightarrow> database \<Rightarrow> database" where
  "seed_menu items db = fold insert_menu items db"

definition init_db :: "database \<Rightarrow> sql_error + database" where
  "init_db db =
     (case (if length (tables db) = 0 then seed_tables [1..8] db else Inr db) of
        Inl e \<Rightarrow> Inl e
      | Inr db1 \<Rightarrow>
          Inr (if length (menu db1) = 0 then seed_menu sample_menu db1 else db1))"

subsection \<open>DB helper functions\<close>

definition get_tables :: "database \<Rightarrow> (int \<times> string) list" where
  "get_tables db = map (\<lambda>r. (t_table_no r, t_status r)) (sort_key t_table_no (tables db))"

definition set_table_status :: "int \<Rightarrow> string \<Rightarrow> database \<Rightarrow> database" where
  "set_table_status table_no st db =
     db\<lparr>tables := map (\<lambda>r. if t_table_no r = table_no then r\<lparr>t_status := st\<rparr> else r)
                       (tables db)\<rparr>"

text \<open>
  The rows of \<^verbatim>\<open>SELECT id, name, price, category FROM menu\<close>. The \<^verbatim>\<open>ORDER BY category, name\<close>
  of the source fixes the order of the list box only; the rows are given here in the order of
  the collection.
\<close>

definition get_menu_items :: "database \<Rightarrow> (int \<times> string \<times> real \<times> string) list" where
  "get_menu_items db = map (\<lambda>r. (m_id r, m_name r, m_price r, m_category r)) (menu db)"

definition add_order_item ::
  "int \<Rightarrow> int \<Rightarrow> string \<Rightarrow> int \<Rightarrow> real \<Rightarrow> string \<Rightarrow> database \<Rightarrow> database" where
  "add_order_item table_no item_id item_name qty price ts db =
     (let i = autoincrement (orders_seq db) (map o_id (orders db));
          db1 = db\<lparr>orders := orders db @
                      [\<lparr>o_id = i, o_table_no = table_no, o_item_id = item_id,
                        o_item_name = item_name, o_qty = qty, o_price = price,
                        o_status = ''pending'', o_timestamp = ts\<rparr>],
                    orders_seq := i\<rparr>
      in set_table_status table_no ''occupied'' db1)"

text \<open>
  \<^verbatim>\<open>SELECT id, item_name, qty, price, status FROM orders WHERE table_no=? ORDER BY id\<close>
\<close>

definition get_orders_for_table ::
  "int \<Rightarrow> database \<Rightarrow> (int \<times> string \<times> int \<times> real \<times> string) list" where
  "get_orders_for_table table_no db =
     map (\<lambda>r. (o_id r, o_item_name r, o_qty r, o_price r, o_status r))
       (sort_key o_id (filter (\<lambda>r. o_table_no r = table_no) (orders db)))"

definition mark_order_prepared :: "int \<Rightarrow> database \<Rightarrow> database" where
  "mark_order_prepared order_id db =
     db\<lparr>orders := map (\<lambda>r. if o_id r = order_id then r\<lparr>o_status := ''prepared''\<rparr> else r)
                       (orders db)\<rparr>"

definition delete_orders_for_table :: "int \<Rightarrow> database \<Rightarrow> database" where
  "delete_orders_for_table table_no db =
     db\<lparr>orders := filter (\<lambda>r. o_table_no r \<noteq> table_no) (orders db)\<rparr>"

definition complete_bill_and_save ::
  "int \<Rightarrow> real \<Rightarrow> fstring \<Rightarrow> string \<Rightarrow> database \<Rightarrow> database" where
  "complete_bill_and_save table_no total' receipt_file date db =
     (let i = autoincrement (sales_seq db) (map s_id (sales db));
          db1 = db\<lparr>sales := sales db @
                      [\<lparr>s_id = i, s_table_no = table_no, s_total = total', s_date = date,
                        s_receipt_file = receipt_file\<rparr>],
                    sales_seq := i\<rparr>
      in set_table_status table_no ''free'' (delete_orders_for_table table_no db1))"

text \<open>
  \<^verbatim>\<open>DELETE FROM orders WHERE id=?\<close>, written inline in
  \<^verbatim>\<open>POSApp.remove_selected_order_item\<close>.
\<close>

definition delete_order :: "int \<Rightarrow> database \<Rightarrow> database" where
  "delete_order oid db = db\<lparr>orders := filter (\<lambda>r. o_id r \<noteq> oid) (orders db)\<rparr>"

subsection \<open>PDF receipt generation\<close>

text \<open>
  A document is the sequence of the texts of its cells, in the order in which \<^verbatim>\<open>pdf.cell\<close>
  draws them; fonts, colours and line feeds are left out. The directory \<^verbatim>\<open>receipts/\<close> is
  a map from file names to documents, and \<^verbatim>\<open>pdf.output(filename)\<close> stores the document
  under its name.
\<close>

type_synonym pdf_doc = "fstring list"

type_synonym receipts_dir = "fstring \<rightharpoonup> pdf_doc"

text \<open>
  The loop \<^verbatim>\<open>for name, qty, price, line_total in items\<close>: it draws four cells per item and
  accumulates \<^verbatim>\<open>total_amount\<close>.
\<close>

definition receipt_loop ::
  "(string \<times> int \<times> real \<times> real) list \<Rightarrow> pdf_doc \<times> real \<Rightarrow> pdf_doc \<times> real" where
  "receipt_loop items start =
     fold (\<lambda>(name, qty, price, line_total) (cells, total_amount).
             (cells @ [[Lit name], [IntV qty], [Fix2 price], [Fix2 line_total]],
              total_amount + line_total))
          items start"

definition generate_receipt_pdf ::
  "int \<Rightarrow> (string \<times> int \<times> real \<times> real) list \<Rightarrow> real \<Rightarrow> real \<Rightarrow> int \<Rightarrow> string \<Rightarrow>
   receipts_dir \<Rightarrow> (fstring \<times> real) \<times> receipts_dir" where
  "generate_receipt_pdf table_no items subtotal tax_percent invoice_no now dir =
     (let filename = [Lit ''receipts/receipt_table'', IntV table_no, Lit ''_'',
                      IntV invoice_no, Lit ''.pdf''];
          pdf = [[Lit ''Restaurant Receipt - Table '', IntV table_no],
                 [Lit ''Date: '', Lit now],
                 [Lit ''Item''], [Lit ''Qty''], [Lit ''Price''], [Lit ''Total'']];
          (pdf, total_amount) = receipt_loop items (pdf, 0);
          pdf = pdf @ [[Lit ''Subtotal''], [Fix2 subtotal]];
          tax = subtotal * tax_percent / 100;
          pdf = pdf @ [[Lit ''Tax ('', Fix1 tax_percent, Lit ''%)''], [Fix2 tax]];
          grand_total = subtotal + tax;
          pdf = pdf @ [[Lit ''Grand Total''], [Fix2 grand_total],
                       [Lit ''Thank you for dining with us!'']]
      in ((filename, grand_total), dir(filename \<mapsto> pdf)))"

subsection \<open>The application\<close>

text \<open>
  The state of \<^verbatim>\<open>POSApp\<close>: the store, the receipts directory, and the attributes
  \<^verbatim>\<open>selected_table\<close>, \<^verbatim>\<open>menu_items\<close>, \<^verbatim>\<open>qty_var\<close> and \<^verbatim>\<open>tax_var\<close>. The selection in the
  list box and in a tree view is an argument of the handler that reads it: the menu id of
  the selected list box line, the order id in the first column of the selected tree row.
\<close>

record pos_app =
  store :: database
  receipts :: receipts_dir
  selected_table :: "int option"
  menu_items :: "int \<rightharpoonup> string \<times> real \<times> string"
  qty_var :: int
  tax_var :: real

datatype dialog =
    Silent
  | ShowError string string
  | ShowInfo string fstring
  | Raised string

text \<open>\<^verbatim>\<open>{r[0]: (r[1], r[2], r[3]) for r in rows}\<close>\<close>

definition load_menu :: "database \<Rightarrow> (int \<rightharpoonup> string \<times> real \<times> string)" where
  "load_menu d =
     fold (\<lambda>(i, name, price, category) m. m(i \<mapsto> (name, price, category)))
          (get_menu_items d) Map.empty"

definition POSApp_init :: "database \<Rightarrow> receipts_dir \<Rightarrow> pos_app" where
  "POSApp_init d dir =
     \<lparr>store = d, receipts = dir, selected_table = None, menu_items = load_menu d,
      qty_var = 1, tax_var = 5.0\<rparr>"

definition open_table :: "int \<Rightarrow> pos_app \<Rightarrow> dialog \<times> pos_app" where
  "open_table table_no s = (Silent, s\<lparr>selected_table := Some table_no\<rparr>)"

definition add_selected_item_to_order ::
  "int option \<Rightarrow> string \<Rightarrow> pos_app \<Rightarrow> dialog \<times> pos_app" where
  "add_selected_item_to_order sel now s =
     (case selected_table s of
        None \<Rightarrow> (ShowError ''No table selected'' ''Please select a table first.'', s)
      | Some table_no \<Rightarrow>
          (case sel of
             None \<Rightarrow> (ShowError ''No item selected'' ''Please select a menu item to add.'', s)
           | Some item_id \<Rightarrow>
               (case menu_items s item_id of
                  None \<Rightarrow> (Raised ''KeyError'', s)
                | Some (name, price, cat) \<Rightarrow>
                    let qty = (if qty_var s \<noteq> 0 then qty_var s else 1)
                    in (Silent,
                        s\<lparr>store := add_order_item table_no item_id name qty price now
                                      (store s)\<rparr>))))"

definition remove_selected_order_item :: "int option \<Rightarrow> pos_app \<Rightarrow> dialog \<times> pos_app" where
  "remove_selected_order_item selected s =
     (case selected of
        None \<Rightarrow> (ShowError ''No selection'' ''Please select an order item to remove.'', s)
      | Some oid \<Rightarrow> (Silent, s\<lparr>store := delete_order oid (store s)\<rparr>))"

definition send_to_kitchen :: "pos_app \<Rightarrow> dialog \<times> pos_app" where
  "send_to_kitchen s =
     (case selected_table s of
        None \<Rightarrow> (ShowError ''No table'' ''Select a table first.'', s)
      | Some table_no \<Rightarrow>
          (ShowInfo ''Sent'' [Lit ''Orders for table '', IntV table_no,
                              Lit '' sent to kitchen.''], s))"

text \<open>
  The loop of \<^verbatim>\<open>print_bill\<close> over the rows of \<^verbatim>\<open>get_orders_for_table\<close>: it builds
  \<^verbatim>\<open>items_for_receipt\<close> and accumulates \<^verbatim>\<open>subtotal\<close>.
\<close>

definition bill_loop ::
  "(int \<times> string \<times> int \<times> real \<times> string) list \<Rightarrow>
   (string \<times> int \<times> real \<times> real) list \<times> real \<Rightarrow> (string \<times> int \<times> real \<times> real) list \<times> real" where
  "bill_loop rows start =
     fold (\<lambda>(oid, item_name, qty, price, status) (items_for_receipt, subtotal).
             let line_total = of_int qty * price
             in (items_for_receipt @ [(item_name, qty, price, line_total)],
                 subtotal + line_total))
          rows start"

text \<open>
  \<^verbatim>\<open>print_bill\<close> reads the clock three times: for the invoice number and for the date line
  of the receipt (in \<^verbatim>\<open>generate_receipt_pdf\<close>), and for the date of the sale (in
  \<^verbatim>\<open>complete_bill_and_save\<close>).
\<close>

definition print_bill :: "int \<Rightarrow> string \<Rightarrow> string \<Rightarrow> pos_app \<Rightarrow> dialog \<times> pos_app" where
  "print_bill invoice_no now_pdf now_sale s =
     (case selected_table s of
        None \<Rightarrow> (ShowError ''No table selected'' ''Please select a table.'', s)
      | Some table_no \<Rightarrow>
          let rows = get_orders_for_table table_no (store s)
          in if rows = [] then
               (ShowError ''No orders'' ''No orders for this table to bill.'', s)
             else
               let (items_for_receipt, subtotal) = bill_loop rows ([], 0);
                   ((receipt_file, grand_total), dir) =
                      generate_receipt_pdf table_no items_for_receipt subtotal (tax_var s)
                        invoice_no now_pdf (receipts s);
                   d = complete_bill_and_save table_no grand_total receipt_file now_sale
                         (store s)
               in (ShowInfo ''Billed'' ([Lit ''Bill printed and saved to:\<newline>''] @ receipt_file),
                   s\<lparr>store := d, receipts := dir, selected_table := None\<rparr>))"

text \<open>
  \<^verbatim>\<open>confirm\<close> is the answer to the \<^verbatim>\<open>askyesno\<close> dialog.
\<close>

definition free_table :: "bool \<Rightarrow> pos_app \<Rightarrow> dialog \<times> pos_app" where
  "free_table confirm s =
     (case selected_table s of
        None \<Rightarrow> (ShowError ''No table selected'' ''Select a table first.'', s)
      | Some table_no \<Rightarrow>
          if confirm then
            (Silent,
             s\<lparr>store := set_table_status table_no ''free''
                           (delete_orders_for_table table_no (store s)),
               selected_table := None\<rparr>)
          else (Silent, s))"

text \<open>\<^verbatim>\<open>mark_prepared\<close> of the kitchen screen.\<close>

definition mark_prepared :: "int option \<Rightarrow> pos_app \<Rightarrow> dialog \<times> pos_app" where
  "mark_prepared sel s =
     (case sel of
        None \<Rightarrow> (ShowError ''No selection'' ''Select an order to mark prepared.'', s)
      | Some oid \<Rightarrow> (Silent, s\<lparr>store := mark_order_prepared oid (store s)\<rparr>))"

subsection \<open>Events\<close>

text \<open>
  What the user can do: press a table button, the buttons of the main window and of the
  kitchen screen, and set the two spin boxes. The kitchen screen and the sales report only
  read the store when they open or refresh.
\<close>

datatype event =
    Open_table int
  | Add_selected "int option" string
  | Remove_selected "int option"
  | Send_to_kitchen
  | Print_bill int string string
  | Free_table bool
  | Mark_prepared "int option"
  | Set_qty int
  | Set_tax real
  | Open_kitchen_screen
  | Open_sales_report
  | Refresh_tables

fun step :: "event \<Rightarrow> pos_app \<Rightarrow> dialog \<times> pos_app" where
  "step (Open_table t) s = open_table t s"
| "step (Add_selected sel now) s = add_selected_item_to_order sel now s"
| "step (Remove_selected sel) s = remove_selected_order_item sel s"
| "step Send_to_kitchen s = send_to_kitchen s"
| "step (Print_bill invoice_no now_pdf now_sale) s = print_bill invoice_no now_pdf now_sale s"
| "step (Free_table confirm) s = free_table confirm s"
| "step (Mark_prepared sel) s = mark_prepared sel s"
| "step (Set_qty q) s = (Silent, s\<lparr>qty_var := q\<rparr>)"
| "step (Set_tax p) s = (Silent, s\<lparr>tax_var := p\<rparr>)"
| "step Open_kitchen_screen s = (Silent, s)"
| "step Open_sales_report s = (Silent, s)"
| "step Refresh_tables s = (Silent, s)"

fun run :: "event list \<Rightarrow> pos_app \<Rightarrow> pos_app" where
  "run [] s = s"
| "run (e # es) s = run es (snd (step e s))"

subsection \<open>Notions of the specification\<close>

text \<open>The order lines of a table, and the Sale that a bill adds.\<close>

definition table_lines :: "int \<Rightarrow> database \<Rightarrow> order_row list" where
  "table_lines table_no d = filter (\<lambda>r. o_table_no r = table_no) (orders d)"

definition line_count :: "int \<Rightarrow> database \<Rightarrow> nat" where
  "line_count table_no d = length (table_lines table_no d)"

text \<open>
  The invariant of the specification: an occupied table has at least one order line, a free
  table has none.
\<close>

definition occupied_iff_lines :: "database \<Rightarrow> bool" where
  "occupied_iff_lines d =
     list_all (\<lambda>r. if t_status r = ''occupied'' then 1 \<le> line_count (t_table_no r) d
                   else if t_status r = ''free'' then line_count (t_table_no r) d = 0
                   else True)
              (tables d)"

text \<open>
  The parts of a receipt: its file name, the cells above the item rows, and the cells below
  them (subtotal, tax, grand total and the closing line).
\<close>

definition receipt_name :: "int \<Rightarrow> int \<Rightarrow> fstring" where
  "receipt_name table_no invoice_no =
     [Lit ''receipts/receipt_table'', IntV table_no, Lit ''_'', IntV invoice_no, Lit ''.pdf'']"

definition receipt_header :: "int \<Rightarrow> string \<Rightarrow> pdf_doc" where
  "receipt_header table_no now =
     [[Lit ''Restaurant Receipt - Table '', IntV table_no],
      [Lit ''Date: '', Lit now],
      [Lit ''Item''], [Lit ''Qty''], [Lit ''Price''], [Lit ''Total'']]"

definition receipt_totals :: "real \<Rightarrow> real \<Rightarrow> real \<Rightarrow> real \<Rightarrow> pdf_doc" where
  "receipt_totals subtotal tax_percent tax grand_total =
     [[Lit ''Subtotal''], [Fix2 subtotal],
      [Lit ''Tax ('', Fix1 tax_percent, Lit ''%)''], [Fix2 tax],
      [Lit ''Grand Total''], [Fix2 grand_total],
      [Lit ''Thank you for dining with us!'']]"

subsection \<open>Sample states\<close>

text \<open>
  The store after the first start of the program, a store with three order lines on two
  tables, and the application with table 1 of that store selected. They are the concrete
  inputs of the examples below.
\<close>

definition seeded_db :: database where
  "seeded_db = (case init_db fresh_db of Inr d \<Rightarrow> d | Inl e \<Rightarrow> fresh_db)"

definition sample_db :: database where
  "sample_db =
     add_order_item 2 7 ''Orange Juice'' 1 2 ''2026-01-01T12:07:00''
       (add_order_item 1 6 ''Coke'' 2 1.5 ''2026-01-01T12:05:00''
         (add_order_item 1 3 ''Veg Burger'' 1 5 ''2026-01-01T12:00:00'' seeded_db))"

definition sample_app :: pos_app where
  "sample_app = snd (open_table 1 (POSApp_init sample_db Map.empty))"


section \<open>Auxiliary facts\<close>

lemma fold_max_ge_start: "a \<le> fold max xs (a::int)"
  by (induction xs arbitrary: a) (auto intro: order_trans [OF max.cobounded2])

lemma fold_max_ge_elem: "x \<in> set xs \<Longrightarrow> x \<le> fold max xs (a::int)"
proof (induction xs arbitrary: a)
  case Nil
  then show ?case by simp
next
  case (Cons y ys)
  show ?case
  proof (cases "x = y")
    case True
    have "max y a \<le> fold max ys (max y a)" by (rule fold_max_ge_start)
    with True show ?thesis by simp
  next
    case False
    with Cons show ?thesis by simp
  qed
qed

lemma autoincrement_fresh: "x \<in> set ids \<Longrightarrow> x < autoincrement seq ids"
  using fold_max_ge_elem [of x ids seq] by (simp add: autoincrement_def)


lemma set_table_status_frame [simp]:
  "orders (set_table_status t st d) = orders d"
  "orders_seq (set_table_status t st d) = orders_seq d"
  "sales (set_table_status t st d) = sales d"
  "sales_seq (set_table_status t st d) = sales_seq d"
  "menu (set_table_status t st d) = menu d"
  "menu_seq (set_table_status t st d) = menu_seq d"
  "tables_seq (set_table_status t st d) = tables_seq d"
  by (simp_all add: set_table_status_def)

lemma set_table_status_tables:
  "tables (set_table_status t st d) =
     map (\<lambda>r. if t_table_no r = t then r\<lparr>t_status := st\<rparr> else r) (tables d)"
  by (simp add: set_table_status_def)

lemma set_table_status_sets:
  assumes "r \<in> set (tables (set_table_status t st d))" and "t_table_no r = t"
  shows "t_status r = st"
proof -
  from assms(1) obtain x
    where r: "r = (if t_table_no x = t then x\<lparr>t_status := st\<rparr> else x)"
    unfolding set_table_status_tables set_map image_iff by blast
  show ?thesis
  proof (cases "t_table_no x = t")
    case True
    with r show ?thesis by simp
  next
    case False
    with r assms(2) show ?thesis by simp
  qed
qed

lemma set_table_status_numbers:
  "map t_table_no (tables (set_table_status t st d)) = map t_table_no (tables d)"
  by (simp add: set_table_status_def)

lemma filter_map_untouched:
  "filter (\<lambda>r. k r \<noteq> t) (map (\<lambda>r. if k r = t then f r else r) xs) = filter (\<lambda>r. k r \<noteq> t) xs"
  if "\<And>r. k (f r) = k r"
  using that by (induction xs) simp_all

lemma set_table_status_others:
  "filter (\<lambda>r. t_table_no r \<noteq> t) (tables (set_table_status t st d)) =
   filter (\<lambda>r. t_table_no r \<noteq> t) (tables d)"
  unfolding set_table_status_tables
  by (rule filter_map_untouched) simp

lemma delete_orders_for_table_frame [simp]:
  "tables (delete_orders_for_table t d) = tables d"
  "tables_seq (delete_orders_for_table t d) = tables_seq d"
  "orders_seq (delete_orders_for_table t d) = orders_seq d"
  "sales (delete_orders_for_table t d) = sales d"
  "sales_seq (delete_orders_for_table t d) = sales_seq d"
  "menu (delete_orders_for_table t d) = menu d"
  "menu_seq (delete_orders_for_table t d) = menu_seq d"
  by (simp_all add: delete_orders_for_table_def)

lemma table_lines_set_table_status [simp]:
  "table_lines t' (set_table_status t st d) = table_lines t' d"
  by (simp add: table_lines_def)

lemma table_lines_delete_same: "table_lines t (delete_orders_for_table t d) = []"
  by (simp add: table_lines_def delete_orders_for_table_def)

lemma filter_filter_other:
  "t' \<noteq> t \<Longrightarrow> filter (\<lambda>r. k r \<noteq> t \<and> k r = t') xs = filter (\<lambda>r. k r = t') xs"
  by (induction xs) simp_all

lemma table_lines_delete_other:
  "t' \<noteq> t \<Longrightarrow> table_lines t' (delete_orders_for_table t d) = table_lines t' d"
  by (simp add: table_lines_def delete_orders_for_table_def filter_filter_other)

lemma get_orders_for_table_lines:
  "get_orders_for_table t d =
     map (\<lambda>r. (o_id r, o_item_name r, o_qty r, o_price r, o_status r))
       (sort_key o_id (table_lines t d))"
  by (simp add: get_orders_for_table_def table_lines_def)

lemma get_orders_for_table_empty: "get_orders_for_table t d = [] \<longleftrightarrow> table_lines t d = []"
proof -
  have "length (get_orders_for_table t d) = length (table_lines t d)"
    by (simp add: get_orders_for_table_lines)
  then show ?thesis by (metis length_0_conv)
qed

subsection \<open>Seeding at startup\<close>

lemma seed_tables_fresh:
  assumes "tables d = []"
  shows "\<exists>d'. seed_tables [1..8] d = Inr d' \<and>
           map (\<lambda>r. (t_table_no r, t_status r)) (tables d') = map (\<lambda>t. (t, ''free'')) [1..8] \<and>
           menu d' = menu d \<and> menu_seq d' = menu_seq d \<and>
           orders d' = orders d \<and> sales d' = sales d"
  using assms by (simp add: upto_rec1 insert_table_def Let_def)

lemma seed_menu_fresh:
  assumes "menu d = []"
  shows "map (\<lambda>r. (m_name r, m_price r, m_category r)) (menu (seed_menu sample_menu d)) = sample_menu \<and>
         tables (seed_menu sample_menu d) = tables d \<and>
         tables_seq (seed_menu sample_menu d) = tables_seq d \<and>
         orders (seed_menu sample_menu d) = orders d \<and>
         sales (seed_menu sample_menu d) = sales d"
  using assms by (simp add: seed_menu_def sample_menu_def insert_menu_def Let_def)

lemma sample_menu_categories:
  "length sample_menu = 9 \<and>
   set (map (\<lambda>(name, price, category). category) sample_menu) =
     {''Pizza'', ''Burger'', ''Pasta'', ''Beverage'', ''Sides'', ''Salad''}"
  by (simp add: sample_menu_def insert_commute)

subsection \<open>Order rows under the handlers\<close>

lemma map_upd_status_same:
  "\<forall>r \<in> set xs. o_id r \<noteq> oid \<Longrightarrow>
   map (\<lambda>r. if o_id r = oid then r\<lparr>o_status := ''prepared''\<rparr> else r) xs = xs"
  by (induction xs) simp_all

lemma mark_order_prepared_frame [simp]:
  "tables (mark_order_prepared oid d) = tables d"
  "tables_seq (mark_order_prepared oid d) = tables_seq d"
  "orders_seq (mark_order_prepared oid d) = orders_seq d"
  "sales (mark_order_prepared oid d) = sales d"
  "sales_seq (mark_order_prepared oid d) = sales_seq d"
  "menu (mark_order_prepared oid d) = menu d"
  "menu_seq (mark_order_prepared oid d) = menu_seq d"
  by (simp_all add: mark_order_prepared_def)

lemma mark_order_prepared_orders:
  "orders (mark_order_prepared oid d) =
     map (\<lambda>r. if o_id r = oid then r\<lparr>o_status := ''prepared''\<rparr> else r) (orders d)"
  by (simp add: mark_order_prepared_def)

lemma mark_order_prepared_row:
  assumes "r \<in> set (orders (mark_order_prepared oid d))"
  shows "r \<in> set (orders d) \<and> o_id r \<noteq> oid \<or> o_status r = ''prepared'' \<and> o_id r = oid"
proof -
  from assms obtain x where x: "x \<in> set (orders d)"
    and r: "r = (if o_id x = oid then x\<lparr>o_status := ''prepared''\<rparr> else x)"
    unfolding mark_order_prepared_orders set_map image_iff by blast
  show ?thesis
  proof (cases "o_id x = oid")
    case True
    with r show ?thesis by simp
  next
    case False
    with r x show ?thesis by simp
  qed
qed

lemma mark_order_prepared_idem:
  "mark_order_prepared oid (mark_order_prepared oid d) = mark_order_prepared oid d"
proof -
  have "map (\<lambda>r. if o_id r = oid then r\<lparr>o_status := ''prepared''\<rparr> else r)
          (map (\<lambda>r. if o_id r = oid then r\<lparr>o_status := ''prepared''\<rparr> else r) xs) =
        map (\<lambda>r. if o_id r = oid then r\<lparr>o_status := ''prepared''\<rparr> else r) xs" for xs
    by (induction xs) simp_all
  then show ?thesis by (simp add: mark_order_prepared_def)
qed

text \<open>
  No handler turns the status of an existing line back: a row of the orders after a step is a
  row of the orders before it, or is prepared, or is a pending row under an id that no
  earlier row has.
\<close>

lemma add_order_item_row:
  assumes "r \<in> set (orders (add_order_item t i n q p ts d))"
  shows "r \<in> set (orders d) \<or>
         o_status r = ''pending'' \<and> o_id r \<notin> set (map o_id (orders d))"
proof -
  have "autoincrement (orders_seq d) (map o_id (orders d)) \<notin> set (map o_id (orders d))"
    using autoincrement_fresh [of _ "map o_id (orders d)" "orders_seq d"] by fastforce
  with assms show ?thesis
    by (auto simp: add_order_item_def Let_def)
qed

lemma add_selected_item_to_order_store:
  "store (snd (add_selected_item_to_order sel now s)) = store s \<or>
   (\<exists>t i n q p. store (snd (add_selected_item_to_order sel now s)) =
      add_order_item t i n q p now (store s))"
  by (simp add: add_selected_item_to_order_def Let_def split: option.splits) blast

lemma step_row:
  assumes "r \<in> set (orders (store (snd (step e s))))"
  shows "r \<in> set (orders (store s)) \<or> o_status r = ''prepared'' \<or>
         o_status r = ''pending'' \<and> o_id r \<notin> set (map o_id (orders (store s)))"
proof (cases e)
  case (Add_selected sel now)
  with assms have r: "r \<in> set (orders (store (snd (add_selected_item_to_order sel now s))))"
    by simp
  from add_selected_item_to_order_store [of sel now s] show ?thesis
  proof
    assume "store (snd (add_selected_item_to_order sel now s)) = store s"
    with r show ?thesis by simp
  next
    assume "\<exists>t i n q p. store (snd (add_selected_item_to_order sel now s)) =
      add_order_item t i n q p now (store s)"
    then obtain t i n q p where "store (snd (add_selected_item_to_order sel now s)) =
      add_order_item t i n q p now (store s)" by blast
    with r add_order_item_row [of r t i n q p now "store s"] show ?thesis by simp blast
  qed
next
  case (Remove_selected sel)
  with assms show ?thesis
    by (auto simp: remove_selected_order_item_def delete_order_def split: option.splits)
next
  case (Print_bill n a b)
  with assms show ?thesis
    by (auto simp: print_bill_def complete_bill_and_save_def delete_orders_for_table_def
        Let_def split: option.splits if_splits prod.splits)
next
  case (Free_table c)
  with assms show ?thesis
    by (auto simp: free_table_def delete_orders_for_table_def split: option.splits if_splits)
next
  case (Mark_prepared sel)
  with assms show ?thesis
    by (auto simp: mark_prepared_def split: option.splits dest: mark_order_prepared_row)
qed (use assms in \<open>simp_all add: open_table_def send_to_kitchen_def split: option.splits\<close>)

subsection \<open>Adding an item\<close>

lemma add_order_item_frame [simp]:
  "sales (add_order_item t i n q p ts d) = sales d"
  "sales_seq (add_order_item t i n q p ts d) = sales_seq d"
  "menu (add_order_item t i n q p ts d) = menu d"
  "menu_seq (add_order_item t i n q p ts d) = menu_seq d"
  "tables_seq (add_order_item t i n q p ts d) = tables_seq d"
  "orders_seq (add_order_item t i n q p ts d) = autoincrement (orders_seq d) (map o_id (orders d))"
  by (simp_all add: add_order_item_def Let_def)

lemma add_order_item_orders:
  "orders (add_order_item t i n q p ts d) =
     orders d @ [\<lparr>o_id = autoincrement (orders_seq d) (map o_id (orders d)), o_table_no = t,
                  o_item_id = i, o_item_name = n, o_qty = q, o_price = p,
                  o_status = ''pending'', o_timestamp = ts\<rparr>]"
  by (simp add: add_order_item_def Let_def)

lemma add_order_item_tables:
  "tables (add_order_item t i n q p ts d) = tables (set_table_status t ''occupied'' d)"
  by (simp add: add_order_item_def Let_def set_table_status_def)

lemma table_lines_add_order_item:
  "table_lines t' (add_order_item t i n q p ts d) =
     table_lines t' d @
       (if t' = t
        then [\<lparr>o_id = autoincrement (orders_seq d) (map o_id (orders d)), o_table_no = t,
                o_item_id = i, o_item_name = n, o_qty = q, o_price = p,
                o_status = ''pending'', o_timestamp = ts\<rparr>]
        else [])"
  by (simp add: table_lines_def add_order_item_orders)

subsection \<open>The bill\<close>

lemma bill_loop_eq:
  "bill_loop rows (items, acc) =
     (items @ map (\<lambda>(oid, item_name, qty, price, status).
                     (item_name, qty, price, of_int qty * price)) rows,
      acc + sum_list (map (\<lambda>(oid, item_name, qty, price, status). of_int qty * price) rows))"
  unfolding bill_loop_def
  by (induction rows arbitrary: items acc) (simp_all add: Let_def split: prod.splits)

lemma sum_list_sort_key:
  "sum_list (map f (sort_key k xs)) = (sum_list (map f xs) :: real)"
proof -
  have "mset (map f (sort_key k xs)) = mset (map f xs)"
    by simp
  then have "sum_mset (mset (map f (sort_key k xs))) = sum_mset (mset (map f xs))"
    by (rule arg_cong)
  then show ?thesis
    by (simp only: sum_mset_sum_list)
qed

lemma bill_loop_subtotal:
  "snd (bill_loop (get_orders_for_table t d) ([], 0)) =
     (\<Sum>r\<leftarrow>table_lines t d. of_int (o_qty r) * o_price r)"
  by (simp add: bill_loop_eq get_orders_for_table_lines comp_def sum_list_sort_key)

lemma generate_receipt_pdf_result:
  "generate_receipt_pdf t items subtotal tax_percent n now dir =
     ((receipt_name t n, subtotal + subtotal * tax_percent / 100),
      dir(receipt_name t n \<mapsto>
            fst (receipt_loop items (receipt_header t now, 0)) @
            receipt_totals subtotal tax_percent (subtotal * tax_percent / 100)
              (subtotal + subtotal * tax_percent / 100)))"
  by (simp add: generate_receipt_pdf_def receipt_name_def receipt_header_def
      receipt_totals_def Let_def split: prod.splits)

lemma print_bill_result:
  assumes "selected_table s = Some t" and "table_lines t (store s) \<noteq> []"
    and "bill_loop (get_orders_for_table t (store s)) ([], 0) = (items, subtotal)"
  shows
    "print_bill n now_pdf now_sale s =
      (ShowInfo ''Billed'' (Lit ''Bill printed and saved to:\<newline>'' # receipt_name t n),
       s\<lparr>store :=
            complete_bill_and_save t (subtotal + subtotal * tax_var s / 100)
              (receipt_name t n) now_sale (store s),
          receipts := (receipts s)
            (receipt_name t n \<mapsto>
               fst (receipt_loop items (receipt_header t now_pdf, 0)) @
               receipt_totals subtotal (tax_var s) (subtotal * tax_var s / 100)
                 (subtotal + subtotal * tax_var s / 100)),
          selected_table := None\<rparr>)"
proof -
  from assms(2) have ne: "get_orders_for_table t (store s) \<noteq> []"
    by (simp add: get_orders_for_table_empty)
  show ?thesis
    using assms(1,3) ne
    by (simp add: print_bill_def Let_def generate_receipt_pdf_result)
qed

lemma complete_bill_and_save_sales:
  "sales (complete_bill_and_save t tot rf date d) =
     sales d @ [\<lparr>s_id = autoincrement (sales_seq d) (map s_id (sales d)), s_table_no = t,
                 s_total = tot, s_date = date, s_receipt_file = rf\<rparr>]"
  by (simp add: complete_bill_and_save_def Let_def)

lemma print_bill_sale:
  assumes "selected_table s = Some t" and "table_lines t (store s) \<noteq> []"
  shows
    "fst (print_bill n now_pdf now_sale s) =
       ShowInfo ''Billed'' (Lit ''Bill printed and saved to:\<newline>'' # receipt_name t n)"
    and "sales (store (snd (print_bill n now_pdf now_sale s))) =
       sales (store s) @
         [\<lparr>s_id = autoincrement (sales_seq (store s)) (map s_id (sales (store s))),
           s_table_no = t,
           s_total = (\<Sum>r\<leftarrow>table_lines t (store s). of_int (o_qty r) * o_price r) +
                     (\<Sum>r\<leftarrow>table_lines t (store s). of_int (o_qty r) * o_price r) *
                     tax_var s / 100,
           s_date = now_sale, s_receipt_file = receipt_name t n\<rparr>]"
    and "\<exists>cells. receipts (snd (print_bill n now_pdf now_sale s)) (receipt_name t n) =
       Some (cells @
             receipt_totals (\<Sum>r\<leftarrow>table_lines t (store s). of_int (o_qty r) * o_price r)
               (tax_var s)
               ((\<Sum>r\<leftarrow>table_lines t (store s). of_int (o_qty r) * o_price r) *
                tax_var s / 100)
               ((\<Sum>r\<leftarrow>table_lines t (store s). of_int (o_qty r) * o_price r) +
                (\<Sum>r\<leftarrow>table_lines t (store s). of_int (o_qty r) * o_price r) *
                tax_var s / 100))"
proof -
  obtain items subtotal where bl:
    "bill_loop (get_orders_for_table t (store s)) ([], 0) = (items, subtotal)"
    by (cases "bill_loop (get_orders_for_table t (store s)) ([], 0)")
  from bill_loop_subtotal [of t "store s"] bl
  have sub: "(\<Sum>r\<leftarrow>table_lines t (store s). of_int (o_qty r) * o_price r) = subtotal"
    by simp
  note out = print_bill_result [OF assms bl, of n now_pdf now_sale]
  show "fst (print_bill n now_pdf now_sale s) =
       ShowInfo ''Billed'' (Lit ''Bill printed and saved to:\<newline>'' # receipt_name t n)"
    unfolding out by simp
  show "sales (store (snd (print_bill n now_pdf now_sale s))) =
       sales (store s) @
         [\<lparr>s_id = autoincrement (sales_seq (store s)) (map s_id (sales (store s))),
           s_table_no = t,
           s_total = (\<Sum>r\<leftarrow>table_lines t (store s). of_int (o_qty r) * o_price r) +
                     (\<Sum>r\<leftarrow>table_lines t (store s). of_int (o_qty r) * o_price r) *
                     tax_var s / 100,
           s_date = now_sale, s_receipt_file = receipt_name t n\<rparr>]"
    unfolding out sub by (simp add: complete_bill_and_save_sales)
  show "\<exists>cells. receipts (snd (print_bill n now_pdf now_sale s)) (receipt_name t n) =
       Some (cells @
             receipt_totals (\<Sum>r\<leftarrow>table_lines t (store s). of_int (o_qty r) * o_price r)
               (tax_var s)
               ((\<Sum>r\<leftarrow>table_lines t (store s). of_int (o_qty r) * o_price r) *
                tax_var s / 100)
               ((\<Sum>r\<leftarrow>table_lines t (store s). of_int (o_qty r) * o_price r) +
                (\<Sum>r\<leftarrow>table_lines t (store s). of_int (o_qty r) * o_price r) *
                tax_var s / 100))"
    unfolding out sub
    by (rule exI [of _ "fst (receipt_loop items (receipt_header t now_pdf, 0))"]) simp
qed

subsection \<open>The sales\<close>

lemma print_bill_no_bill:
  assumes "selected_table s = None \<or>
           (\<exists>t. selected_table s = Some t \<and> table_lines t (store s) = [])"
  shows "snd (print_bill n now_pdf now_sale s) = s"
  using assms
  by (auto simp: print_bill_def get_orders_for_table_empty)

lemma step_sales_other:
  assumes "\<And>n now_pdf now_sale. e \<noteq> Print_bill n now_pdf now_sale"
  shows "sales (store (snd (step e s))) = sales (store s)"
proof (cases e)
  case (Add_selected sel now)
  with add_selected_item_to_order_store [of sel now s] show ?thesis
    by (auto simp: add_order_item_frame)
next
  case (Print_bill n now_pdf now_sale)
  with assms [of n now_pdf now_sale] show ?thesis by simp
qed (simp_all add: open_table_def remove_selected_order_item_def delete_order_def
       send_to_kitchen_def free_table_def mark_prepared_def split: option.splits)

lemma step_sales_prefix: "prefix (sales (store s)) (sales (store (snd (step e s))))"
proof (cases "\<exists>n now_pdf now_sale. e = Print_bill n now_pdf now_sale")
  case False
  then show ?thesis by (simp add: step_sales_other)
next
  case True
  then obtain n now_pdf now_sale where e: "e = Print_bill n now_pdf now_sale"
    by blast
  show ?thesis
  proof (cases "selected_table s = None \<or>
           (\<exists>t. selected_table s = Some t \<and> table_lines t (store s) = [])")
    case True
    from print_bill_no_bill [OF True] show ?thesis by (simp add: e)
  next
    case False
    then obtain t where "selected_table s = Some t" "table_lines t (store s) \<noteq> []"
      by auto
    from print_bill_sale(2) [OF this] show ?thesis by (simp add: e)
  qed
qed

lemma run_sales_prefix: "prefix (sales (store s)) (sales (store (run es s)))"
proof (induction es arbitrary: s)
  case Nil
  show ?case by simp
next
  case (Cons e es)
  from step_sales_prefix [of s e] Cons [of "snd (step e s)"] show ?case
    by (simp add: prefix_order.order_trans)
qed

lemma init_db_sales: "init_db d = Inr d' \<Longrightarrow> sales d' = sales d"
proof -
  have seed: "seed_tables ts x = Inr y \<Longrightarrow> sales y = sales x" for ts x y
    by (induction ts arbitrary: x)
       (auto simp: insert_table_def Let_def split: if_splits sum.splits)
  have ins: "sales (insert_menu item x) = sales x" for item x
    by (simp add: insert_menu_def Let_def split: prod.splits)
  have menu: "sales (fold insert_menu items x) = sales x" for items x
    by (induction items arbitrary: x) (simp_all add: ins)
  assume "init_db d = Inr d'"
  then show ?thesis
    by (auto simp: init_db_def seed_menu_def menu split: if_splits sum.splits dest: seed)
qed

subsection \<open>The invariant of occupied tables\<close>

lemma if_chain_iff:
  "a \<noteq> b \<Longrightarrow>
   (if x = a then P else if x = b then Q else True) \<longleftrightarrow> (x = a \<longrightarrow> P) \<and> (x = b \<longrightarrow> Q)"
  by auto

lemma occupied_iff_lines_iff:
  "occupied_iff_lines d \<longleftrightarrow>
     (\<forall>r \<in> set (tables d).
        (t_status r = ''occupied'' \<longrightarrow> 1 \<le> line_count (t_table_no r) d) \<and>
        (t_status r = ''free'' \<longrightarrow> line_count (t_table_no r) d = 0))"
proof -
  have ne: "''occupied'' \<noteq> ''free''" by simp
  show ?thesis
    unfolding occupied_iff_lines_def list_all_iff if_chain_iff [OF ne] ..
qed

lemma occupied_iff_lines_same:
  assumes "tables d' = tables d" and "\<And>t. line_count t d' = line_count t d"
  shows "occupied_iff_lines d' = occupied_iff_lines d"
  using assms by (simp add: occupied_iff_lines_def)

lemma occupied_iff_lines_update:
  assumes inv: "occupied_iff_lines d"
    and tabs: "tables d' = tables (set_table_status t st d)"
    and others: "\<And>t'. t' \<noteq> t \<Longrightarrow> line_count t' d' = line_count t' d"
    and here: "st = ''occupied'' \<and> 1 \<le> line_count t d' \<or> st = ''free'' \<and> line_count t d' = 0"
  shows "occupied_iff_lines d'"
  unfolding occupied_iff_lines_iff
proof
  fix r'
  assume "r' \<in> set (tables d')"
  then obtain r where r: "r \<in> set (tables d)"
    and r': "r' = (if t_table_no r = t then r\<lparr>t_status := st\<rparr> else r)"
    unfolding tabs set_table_status_tables set_map image_iff by blast
  show "(t_status r' = ''occupied'' \<longrightarrow> 1 \<le> line_count (t_table_no r') d') \<and>
        (t_status r' = ''free'' \<longrightarrow> line_count (t_table_no r') d' = 0)"
  proof (cases "t_table_no r = t")
    case True
    with r' have "t_table_no r' = t" "t_status r' = st" by simp_all
    with here show ?thesis by auto
  next
    case False
    with r' have "r' = r" by simp
    with False r inv others [of "t_table_no r"] show ?thesis
      by (simp add: occupied_iff_lines_iff)
  qed
qed

lemma occupied_iff_lines_add_order_item:
  assumes "occupied_iff_lines d"
  shows "occupied_iff_lines (add_order_item t i n q p ts d)"
  using assms
proof (rule occupied_iff_lines_update [where t = t and st = "''occupied''"])
  show "tables (add_order_item t i n q p ts d) = tables (set_table_status t ''occupied'' d)"
    by (rule add_order_item_tables)
  show "line_count t' (add_order_item t i n q p ts d) = line_count t' d" if "t' \<noteq> t" for t'
    using that by (simp add: line_count_def table_lines_add_order_item)
  show "''occupied'' = ''occupied'' \<and> 1 \<le> line_count t (add_order_item t i n q p ts d) \<or>
        ''occupied'' = ''free'' \<and> line_count t (add_order_item t i n q p ts d) = 0"
    by (simp add: line_count_def table_lines_add_order_item)
qed

lemma occupied_iff_lines_clear:
  assumes "occupied_iff_lines d"
  shows "occupied_iff_lines (set_table_status t ''free'' (delete_orders_for_table t d))"
  using assms
proof (rule occupied_iff_lines_update [where t = t and st = "''free''"])
  show "tables (set_table_status t ''free'' (delete_orders_for_table t d)) =
        tables (set_table_status t ''free'' d)"
    by (simp add: set_table_status_tables)
  show "line_count t' (set_table_status t ''free'' (delete_orders_for_table t d)) =
        line_count t' d" if "t' \<noteq> t" for t'
    using that by (simp add: line_count_def table_lines_delete_other)
  show "''free'' = ''occupied'' \<and>
          1 \<le> line_count t (set_table_status t ''free'' (delete_orders_for_table t d)) \<or>
        ''free'' = ''free'' \<and>
          line_count t (set_table_status t ''free'' (delete_orders_for_table t d)) = 0"
    by (simp add: line_count_def table_lines_delete_same)
qed

lemma occupied_iff_lines_complete_bill_and_save:
  assumes "occupied_iff_lines d"
  shows "occupied_iff_lines (complete_bill_and_save t tot rf date d)"
proof -
  define d1 where "d1 = d\<lparr>sales := sales d @
       [\<lparr>s_id = autoincrement (sales_seq d) (map s_id (sales d)), s_table_no = t,
         s_total = tot, s_date = date, s_receipt_file = rf\<rparr>],
       sales_seq := autoincrement (sales_seq d) (map s_id (sales d))\<rparr>"
  have "occupied_iff_lines d1 = occupied_iff_lines d"
    by (rule occupied_iff_lines_same) (simp_all add: d1_def line_count_def table_lines_def)
  with assms have "occupied_iff_lines d1" by simp
  from occupied_iff_lines_clear [OF this, of t] show ?thesis
    by (simp add: complete_bill_and_save_def Let_def d1_def)
qed

lemma length_filter_map_same:
  assumes "\<And>x. P (f x) = P x"
  shows "length (filter P (map f xs)) = length (filter P xs)"
  using assms by (induction xs) simp_all

lemma occupied_iff_lines_mark_order_prepared:
  "occupied_iff_lines (mark_order_prepared oid d) = occupied_iff_lines d"
proof (rule occupied_iff_lines_same)
  show "tables (mark_order_prepared oid d) = tables d" by simp
  show "line_count t (mark_order_prepared oid d) = line_count t d" for t
    unfolding line_count_def table_lines_def mark_order_prepared_orders
    by (rule length_filter_map_same) simp
qed

text \<open>
  Every handler but \<^verbatim>\<open>remove_selected_order_item\<close> keeps the invariant, and the seeded
  store has it.
\<close>

lemma occupied_iff_lines_step:
  assumes inv: "occupied_iff_lines (store s)" and e: "\<And>sel. e \<noteq> Remove_selected sel"
  shows "occupied_iff_lines (store (snd (step e s)))"
proof (cases e)
  case (Add_selected sel now)
  from add_selected_item_to_order_store [of sel now s] inv show ?thesis
    by (auto simp: Add_selected occupied_iff_lines_add_order_item)
next
  case (Remove_selected sel)
  with e [of sel] show ?thesis by simp
next
  case (Print_bill n now_pdf now_sale)
  show ?thesis
  proof (cases "selected_table s = None \<or>
           (\<exists>t. selected_table s = Some t \<and> table_lines t (store s) = [])")
    case True
    from print_bill_no_bill [OF True] inv show ?thesis by (simp add: Print_bill)
  next
    case False
    then obtain t where t: "selected_table s = Some t" "table_lines t (store s) \<noteq> []"
      by auto
    obtain items subtotal where
      "bill_loop (get_orders_for_table t (store s)) ([], 0) = (items, subtotal)"
      by (cases "bill_loop (get_orders_for_table t (store s)) ([], 0)")
    from print_bill_result [OF t this, of n now_pdf now_sale] inv show ?thesis
      by (simp add: Print_bill occupied_iff_lines_complete_bill_and_save)
  qed
next
  case (Free_table confirm)
  with inv show ?thesis
    by (simp add: free_table_def occupied_iff_lines_clear split: option.splits)
next
  case (Mark_prepared sel)
  with inv show ?thesis
    by (simp add: mark_prepared_def occupied_iff_lines_mark_order_prepared split: option.splits)
qed (use inv in \<open>simp_all add: open_table_def send_to_kitchen_def split: option.splits\<close>)

lemma occupied_iff_lines_seeded_db: "occupied_iff_lines seeded_db"
  by code_simp

section \<open>Properties of the specification\<close>

subsection \<open>C1: occupied tables and order lines\<close>

text \<open>
  C1. The specification asks that in every reachable state an occupied table has at least
  one order line and a free table has none. \<^verbatim>\<open>remove_selected_order_item\<close> deletes the line and leaves the status of the
  table as it is: after the start on a fresh database, table 1 is opened, two Coke are added
  (the table becomes occupied, with the one line 1) and line 1 is removed. Table 1 is then
  still occupied and has no order line, so the invariant, which held before the removal, is
  broken.
\<close>

theorem remove_selected_order_item_keeps_table_occupied:
  "let s0 = POSApp_init seeded_db Map.empty;
       s1 = run [Open_table 1, Set_qty 2, Add_selected (Some 6) ''2026-01-01T12:00:00''] s0;
       out = step (Remove_selected (Some 1)) s1
   in occupied_iff_lines (store s0) \<and>
      occupied_iff_lines (store s1) \<and>
      get_orders_for_table 1 (store s1) = [(1, ''Coke'', 2, 1.5, ''pending'')] \<and>
      fst out = Silent \<and>
      get_orders_for_table 1 (store (snd out)) = [] \<and>
      line_count 1 (store (snd out)) = 0 \<and>
      get_tables (store (snd out)) =
        [(1, ''occupied''), (2, ''free''), (3, ''free''), (4, ''free''),
         (5, ''free''), (6, ''free''), (7, ''free''), (8, ''free'')] \<and>
      \<not> occupied_iff_lines (store (snd out))"
  by code_simp

subsection \<open>C2: computing the bill\<close>



subsection \<open>C3: completing a bill\<close>

text \<open>
  C3. For every table, grand total and receipt reference, \<^verbatim>\<open>complete_bill_and_save\<close>
  appends exactly one Sale record (with the given table, total, date and receipt), deletes
  every order line whose \<^verbatim>\<open>table_no\<close> is that table and no other, and sets the status of
  that table to free, leaving the other tables as they are. So after it the table is free
  and has no order line, whatever it had before.
\<close>

theorem complete_bill_and_save_effect:
  "let d' = complete_bill_and_save t tot rf date d in
     sales d' = sales d @
       [\<lparr>s_id = autoincrement (sales_seq d) (map s_id (sales d)), s_table_no = t,
         s_total = tot, s_date = date, s_receipt_file = rf\<rparr>] \<and>
     length (sales d') = length (sales d) + 1 \<and>
     orders d' = filter (\<lambda>r. o_table_no r \<noteq> t) (orders d) \<and>
     line_count t d' = 0 \<and>
     (\<forall>t'. t' \<noteq> t \<longrightarrow> table_lines t' d' = table_lines t' d) \<and>
     (\<forall>r \<in> set (tables d'). t_table_no r = t \<longrightarrow> t_status r = ''free'') \<and>
     map t_table_no (tables d') = map t_table_no (tables d) \<and>
     filter (\<lambda>r. t_table_no r \<noteq> t) (tables d') = filter (\<lambda>r. t_table_no r \<noteq> t) (tables d) \<and>
     menu d' = menu d"
proof -
  define d1 where "d1 = d\<lparr>sales := sales d @
       [\<lparr>s_id = autoincrement (sales_seq d) (map s_id (sales d)), s_table_no = t,
         s_total = tot, s_date = date, s_receipt_file = rf\<rparr>],
       sales_seq := autoincrement (sales_seq d) (map s_id (sales d))\<rparr>"
  define d' where "d' = set_table_status t ''free'' (delete_orders_for_table t d1)"
  have eq: "complete_bill_and_save t tot rf date d = d'"
    by (simp add: complete_bill_and_save_def d'_def d1_def Let_def)
  have d1: "orders d1 = orders d" "tables d1 = tables d" "menu d1 = menu d"
    "\<And>t'. table_lines t' d1 = table_lines t' d"
    by (simp_all add: d1_def table_lines_def)
  have 1: "sales d' = sales d @
       [\<lparr>s_id = autoincrement (sales_seq d) (map s_id (sales d)), s_table_no = t,
         s_total = tot, s_date = date, s_receipt_file = rf\<rparr>]"
    by (simp add: d'_def d1_def)
  have 3: "orders d' = filter (\<lambda>r. o_table_no r \<noteq> t) (orders d)"
    by (simp add: d'_def d1 delete_orders_for_table_def)
  have 4: "line_count t d' = 0"
    by (simp add: d'_def line_count_def table_lines_delete_same)
  have 5: "\<forall>t'. t' \<noteq> t \<longrightarrow> table_lines t' d' = table_lines t' d"
    by (simp add: d'_def table_lines_delete_other d1)
  have 6: "\<forall>r \<in> set (tables d'). t_table_no r = t \<longrightarrow> t_status r = ''free''"
    unfolding d'_def by (blast intro: set_table_status_sets)
  have 7: "map t_table_no (tables d') = map t_table_no (tables d)"
    by (simp add: d'_def set_table_status_numbers d1)
  have 8: "filter (\<lambda>r. t_table_no r \<noteq> t) (tables d') = filter (\<lambda>r. t_table_no r \<noteq> t) (tables d)"
    by (simp add: d'_def set_table_status_others d1)
  have 9: "menu d' = menu d"
    by (simp add: d'_def d1)
  from 1 3 4 5 6 7 8 9 show ?thesis
    unfolding eq Let_def by simp
qed


text \<open>An instance: table 1 of the sample store, occupied with two lines, is billed.\<close>

theorem complete_bill_and_save_effect_witness:
  "let d' = complete_bill_and_save 1 8.4 [Lit ''receipts/receipt_table1_1767269400.pdf'']
              ''2026-01-01 12:10:00'' sample_db
   in line_count 1 sample_db = 2 \<and> (1, ''occupied'') \<in> set (get_tables sample_db) \<and>
      length (sales sample_db) = 0 \<and>
      line_count 1 d' = 0 \<and> length (sales d') = 1 \<and>
      table_lines 2 d' = table_lines 2 sample_db \<and> (1, ''free'') \<in> set (get_tables d')"
proof -
  have before: "line_count 1 sample_db = 2 \<and> (1, ''occupied'') \<in> set (get_tables sample_db) \<and>
      length (sales sample_db) = 0"
    by code_simp
  have status: "(1, ''free'') \<in> set (get_tables (complete_bill_and_save 1 8.4
       [Lit ''receipts/receipt_table1_1767269400.pdf''] ''2026-01-01 12:10:00'' sample_db))"
    by code_simp
  from before status show ?thesis
    using complete_bill_and_save_effect
      [of 1 "8.4" "[Lit ''receipts/receipt_table1_1767269400.pdf'']" "''2026-01-01 12:10:00''"
          sample_db]
    by (simp add: Let_def)
qed

subsection \<open>C4: adding an item to an order\<close>



subsection \<open>C5: freeing a table\<close>

text \<open>
  C5. \<^verbatim>\<open>free_table\<close> never changes the sales, whatever is selected and whatever the answer
  to its question is. With a table selected and the question confirmed it deletes every
  order line of that table, sets the status of that table to free and clears the selection;
  the order lines and the rows of the other tables, the menu and the receipts are as before.
\<close>

theorem free_table_effect:
  "sales (store (snd (free_table confirm s))) = sales (store s) \<and>
   sales_seq (store (snd (free_table confirm s))) = sales_seq (store s) \<and>
   (selected_table s = Some t \<longrightarrow>
      (let s' = snd (free_table True s) in
         fst (free_table True s) = Silent \<and>
         line_count t (store s') = 0 \<and>
         (\<forall>r \<in> set (tables (store s')). t_table_no r = t \<longrightarrow> t_status r = ''free'') \<and>
         map t_table_no (tables (store s')) = map t_table_no (tables (store s)) \<and>
         filter (\<lambda>r. t_table_no r \<noteq> t) (tables (store s')) =
           filter (\<lambda>r. t_table_no r \<noteq> t) (tables (store s)) \<and>
         (\<forall>t'. t' \<noteq> t \<longrightarrow> table_lines t' (store s') = table_lines t' (store s)) \<and>
         menu (store s') = menu (store s) \<and>
         receipts s' = receipts s \<and>
         selected_table s' = None))"
proof -
  have sales: "sales (store (snd (free_table confirm s))) = sales (store s) \<and>
               sales_seq (store (snd (free_table confirm s))) = sales_seq (store s)"
    by (simp add: free_table_def split: option.splits)
  have sel: "selected_table s = Some t \<longrightarrow>
      (let s' = snd (free_table True s) in
         fst (free_table True s) = Silent \<and>
         line_count t (store s') = 0 \<and>
         (\<forall>r \<in> set (tables (store s')). t_table_no r = t \<longrightarrow> t_status r = ''free'') \<and>
         map t_table_no (tables (store s')) = map t_table_no (tables (store s)) \<and>
         filter (\<lambda>r. t_table_no r \<noteq> t) (tables (store s')) =
           filter (\<lambda>r. t_table_no r \<noteq> t) (tables (store s)) \<and>
         (\<forall>t'. t' \<noteq> t \<longrightarrow> table_lines t' (store s') = table_lines t' (store s)) \<and>
         menu (store s') = menu (store s) \<and>
         receipts s' = receipts s \<and>
         selected_table s' = None)"
  proof
    assume t: "selected_table s = Some t"
    define d' where "d' = set_table_status t ''free'' (delete_orders_for_table t (store s))"
    have eq: "free_table True s = (Silent, s\<lparr>store := d', selected_table := None\<rparr>)"
      using t by (simp add: free_table_def d'_def)
    have 1: "line_count t d' = 0"
      by (simp add: d'_def line_count_def table_lines_delete_same)
    have 2: "\<forall>r \<in> set (tables d'). t_table_no r = t \<longrightarrow> t_status r = ''free''"
      unfolding d'_def by (blast intro: set_table_status_sets)
    have 3: "map t_table_no (tables d') = map t_table_no (tables (store s))"
      by (simp add: d'_def set_table_status_numbers)
    have 4: "filter (\<lambda>r. t_table_no r \<noteq> t) (tables d') =
           filter (\<lambda>r. t_table_no r \<noteq> t) (tables (store s))"
      by (simp add: d'_def set_table_status_others)
    have 5: "\<forall>t'. t' \<noteq> t \<longrightarrow> table_lines t' d' = table_lines t' (store s)"
      by (simp add: d'_def table_lines_delete_other)
    have 6: "menu d' = menu (store s)"
      by (simp add: d'_def)
    from 1 2 3 4 5 6 show "let s' = snd (free_table True s) in
         fst (free_table True s) = Silent \<and>
         line_count t (store s') = 0 \<and>
         (\<forall>r \<in> set (tables (store s')). t_table_no r = t \<longrightarrow> t_status r = ''free'') \<and>
         map t_table_no (tables (store s')) = map t_table_no (tables (store s)) \<and>
         filter (\<lambda>r. t_table_no r \<noteq> t) (tables (store s')) =
           filter (\<lambda>r. t_table_no r \<noteq> t) (tables (store s)) \<and>
         (\<forall>t'. t' \<noteq> t \<longrightarrow> table_lines t' (store s') = table_lines t' (store s)) \<and>
         menu (store s') = menu (store s) \<and>
         receipts s' = receipts s \<and>
         selected_table s' = None"
      unfolding eq Let_def by simp
  qed
  from sales sel show ?thesis by blast
qed

text \<open>
  An instance: table 1 of the sample store, occupied with two unbilled lines, is freed;
  the line of table 2 stays and no sale appears.
\<close>

theorem free_table_effect_witness:
  "let s' = snd (free_table True sample_app) in
     selected_table sample_app = Some 1 \<and>
     line_count 1 (store sample_app) = 2 \<and> line_count 2 (store sample_app) = 1 \<and>
     (1, ''occupied'') \<in> set (get_tables (store sample_app)) \<and>
     line_count 1 (store s') = 0 \<and> line_count 2 (store s') = 1 \<and>
     (1, ''free'') \<in> set (get_tables (store s')) \<and>
     (2, ''occupied'') \<in> set (get_tables (store s')) \<and>
     sales (store s') = sales (store sample_app) \<and> sales (store s') = []"
proof -
  have pre: "selected_table sample_app = Some 1 \<and>
     line_count 1 (store sample_app) = 2 \<and> line_count 2 (store sample_app) = 1 \<and>
     (1, ''occupied'') \<in> set (get_tables (store sample_app)) \<and>
     sales (store sample_app) = []"
    by code_simp
  have post: "line_count 2 (store (snd (free_table True sample_app))) = 1 \<and>
     (1, ''free'') \<in> set (get_tables (store (snd (free_table True sample_app)))) \<and>
     (2, ''occupied'') \<in> set (get_tables (store (snd (free_table True sample_app))))"
    by code_simp
  from pre post free_table_effect [of True sample_app 1] show ?thesis
    by (simp add: Let_def)
qed

subsection \<open>C6: billing a table without order lines\<close>

text \<open>
  C6. With a table selected that has no order line, \<^verbatim>\<open>print_bill\<close> shows the error
  ``No orders'' and returns the application state it was given: the status of the table, the
  orders, the sales and the receipts directory are unchanged, and the table stays selected.
\<close>

theorem print_bill_empty:
  assumes "selected_table s = Some t" and "line_count t (store s) = 0"
  shows "print_bill invoice_no now_pdf now_sale s =
           (ShowError ''No orders'' ''No orders for this table to bill.'', s)"
proof -
  from assms(2) have "get_orders_for_table t (store s) = []"
    by (simp add: get_orders_for_table_empty line_count_def)
  with assms(1) show ?thesis
    by (simp add: print_bill_def)
qed

text \<open>An instance: table 3 of the sample store is free and has no line.\<close>

theorem print_bill_empty_witness:
  "let s = snd (open_table 3 sample_app);
       out = print_bill 1767269400 ''2026-01-01 12:10:00'' ''2026-01-01 12:10:01'' s
   in selected_table s = Some 3 \<and> line_count 3 (store s) = 0 \<and>
      (3, ''free'') \<in> set (get_tables (store s)) \<and>
      fst out = ShowError ''No orders'' ''No orders for this table to bill.'' \<and>
      snd out = s"
proof -
  have pre: "selected_table (snd (open_table 3 sample_app)) = Some 3 \<and>
      line_count 3 (store (snd (open_table 3 sample_app))) = 0 \<and>
      (3, ''free'') \<in> set (get_tables (store (snd (open_table 3 sample_app))))"
    by code_simp
  from pre print_bill_empty [of "snd (open_table 3 sample_app)" 3 1767269400
      "''2026-01-01 12:10:00''" "''2026-01-01 12:10:01''"]
  show ?thesis
    by (simp add: Let_def)
qed

subsection \<open>C7: marking an order line prepared\<close>

text \<open>
  C7. \<^verbatim>\<open>mark_order_prepared\<close> returns on every id and every store. It keeps the rows of the
  orders in place and sets the status of each row with the given id to prepared, whatever the
  status was; every other row, and every other collection, is as before. For an id that no
  row has, the store is unchanged. Marking twice is marking once, and no step of the
  application takes a line from prepared back to pending.
\<close>

theorem mark_order_prepared_effect:
  "let d' = mark_order_prepared oid d in
     map o_id (orders d') = map o_id (orders d) \<and>
     (\<forall>r \<in> set (orders d'). o_id r = oid \<longrightarrow> o_status r = ''prepared'') \<and>
     (\<forall>i < length (orders d).
        orders d' ! i =
          (if o_id (orders d ! i) = oid then (orders d ! i)\<lparr>o_status := ''prepared''\<rparr>
           else orders d ! i)) \<and>
     (oid \<notin> set (map o_id (orders d)) \<longrightarrow> d' = d) \<and>
     mark_order_prepared oid d' = d' \<and>
     tables d' = tables d \<and> menu d' = menu d \<and> sales d' = sales d \<and>
     (\<forall>r \<in> set (orders (store (snd (step e s)))).
        r \<in> set (orders (store s)) \<or> o_status r = ''prepared'' \<or>
        o_status r = ''pending'' \<and> o_id r \<notin> set (map o_id (orders (store s))))"
proof -
  have 1: "map o_id (orders (mark_order_prepared oid d)) = map o_id (orders d)"
    by (simp add: mark_order_prepared_orders comp_def if_distrib cong: if_cong)
  have 2: "\<forall>r \<in> set (orders (mark_order_prepared oid d)). o_id r = oid \<longrightarrow> o_status r = ''prepared''"
    using mark_order_prepared_row [of _ oid d] by blast
  have 3: "\<forall>i < length (orders d).
        orders (mark_order_prepared oid d) ! i =
          (if o_id (orders d ! i) = oid then (orders d ! i)\<lparr>o_status := ''prepared''\<rparr>
           else orders d ! i)"
    by (simp add: mark_order_prepared_orders)
  have 4: "oid \<notin> set (map o_id (orders d)) \<longrightarrow> mark_order_prepared oid d = d"
  proof
    assume "oid \<notin> set (map o_id (orders d))"
    then have "\<forall>r \<in> set (orders d). o_id r \<noteq> oid" by auto
    then show "mark_order_prepared oid d = d"
      by (simp add: mark_order_prepared_def map_upd_status_same)
  qed
  have 5: "\<forall>r \<in> set (orders (store (snd (step e s)))).
        r \<in> set (orders (store s)) \<or> o_status r = ''prepared'' \<or>
        o_status r = ''pending'' \<and> o_id r \<notin> set (map o_id (orders (store s)))"
    using step_row by blast
  from 1 2 3 4 5 show ?thesis
    unfolding Let_def by (simp add: mark_order_prepared_idem)
qed

text \<open>
  An instance: line 2 of the sample store is marked prepared; no line has the id 99.
\<close>

theorem mark_order_prepared_effect_witness:
  "let d' = mark_order_prepared 2 sample_db in
     map o_id (orders sample_db) = [1, 2, 3] \<and>
     map o_status (orders sample_db) = [''pending'', ''pending'', ''pending''] \<and>
     map o_id (orders d') = [1, 2, 3] \<and>
     map o_status (orders d') = [''pending'', ''prepared'', ''pending''] \<and>
     mark_order_prepared 2 d' = d' \<and>
     mark_order_prepared 99 sample_db = sample_db"
proof -
  have ids: "map o_id (orders sample_db) = [1, 2, 3] \<and>
     map o_status (orders sample_db) = [''pending'', ''pending'', ''pending''] \<and>
     map o_status (orders (mark_order_prepared 2 sample_db)) =
       [''pending'', ''prepared'', ''pending'']"
    by code_simp
  from ids mark_order_prepared_effect [of 2 sample_db]
    mark_order_prepared_effect [of 99 sample_db]
  show ?thesis
    by (simp add: Let_def)
qed

subsection \<open>C8: the sales are append-only\<close>

text \<open>
  C8. A step of the application leaves the sales as they are, except a \<^verbatim>\<open>print_bill\<close>
  with a table selected that has order lines: that step appends exactly one Sale, for that
  table. So the sales before any sequence of steps are a prefix of the sales after it: no
  Sale is changed or deleted. \<^verbatim>\<open>complete_bill_and_save\<close> adds exactly one row at the end,
  and \<^verbatim>\<open>init_db\<close> leaves the sales alone.
\<close>

theorem sales_append_only:
  "(case e of
      Print_bill invoice_no now_pdf now_sale \<Rightarrow>
        (case selected_table s of
           None \<Rightarrow> sales (store (snd (step e s))) = sales (store s)
         | Some t \<Rightarrow>
             if table_lines t (store s) = []
             then sales (store (snd (step e s))) = sales (store s)
             else \<exists>sale. s_table_no sale = t \<and>
                    sales (store (snd (step e s))) = sales (store s) @ [sale])
    | _ \<Rightarrow> sales (store (snd (step e s))) = sales (store s)) \<and>
   prefix (sales (store s)) (sales (store (run es s))) \<and>
   (init_db d = Inr d' \<longrightarrow> sales d' = sales d) \<and>
   length (sales (complete_bill_and_save table_no tot rf date d)) = length (sales d) + 1 \<and>
   prefix (sales d) (sales (complete_bill_and_save table_no tot rf date d))"
proof -
  have other: "sales (store (snd (step e s))) = sales (store s)"
    if "\<forall>n now_pdf now_sale. e \<noteq> Print_bill n now_pdf now_sale"
    using that by (simp add: step_sales_other)
  have 1: "case e of
      Print_bill invoice_no now_pdf now_sale \<Rightarrow>
        (case selected_table s of
           None \<Rightarrow> sales (store (snd (step e s))) = sales (store s)
         | Some t \<Rightarrow>
             if table_lines t (store s) = []
             then sales (store (snd (step e s))) = sales (store s)
             else \<exists>sale. s_table_no sale = t \<and>
                    sales (store (snd (step e s))) = sales (store s) @ [sale])
    | _ \<Rightarrow> sales (store (snd (step e s))) = sales (store s)"
  proof (cases e)
    case (Print_bill n now_pdf now_sale)
    show ?thesis
    proof (cases "selected_table s")
      case None
      with print_bill_no_bill [of s n now_pdf now_sale] show ?thesis
        by (simp add: Print_bill)
    next
      case (Some t)
      show ?thesis
      proof (cases "table_lines t (store s) = []")
        case True
        with Some print_bill_no_bill [of s n now_pdf now_sale] show ?thesis
          by (simp add: Print_bill)
      next
        case False
        from print_bill_sale(2) [OF Some False, of n now_pdf now_sale] Some False
        show ?thesis
          by (simp add: Print_bill)
      qed
    qed
  qed (use other in simp_all)
  have 4: "length (sales (complete_bill_and_save table_no tot rf date d)) = length (sales d) + 1"
    "prefix (sales d) (sales (complete_bill_and_save table_no tot rf date d))"
    by (simp_all add: complete_bill_and_save_sales)
  from 1 run_sales_prefix [of s es] init_db_sales [of d d'] 4 show ?thesis
    by blast
qed

text \<open>
  An instance: table 1 of the sample store is billed, then table 2 is opened and freed, a
  line is removed, and billing is tried again with nothing selected.
\<close>

theorem sales_append_only_witness:
  "let bill = Print_bill 1767269400 ''2026-01-01 12:10:00'' ''2026-01-01 12:10:01'';
       s1 = snd (step bill sample_app);
       es = [Open_table 2, Mark_prepared (Some 3), Remove_selected (Some 3), Free_table True,
             Print_bill 1767269500 ''2026-01-01 12:11:40'' ''2026-01-01 12:11:41''];
       s2 = run es s1
   in selected_table sample_app = Some 1 \<and> table_lines 1 (store sample_app) \<noteq> [] \<and>
      sales (store sample_app) = [] \<and>
      map s_table_no (sales (store s1)) = [1] \<and>
      prefix (sales (store s1)) (sales (store s2)) \<and>
      sales (store s2) = sales (store s1) \<and>
      init_db (store s2) = Inr (store s2)"
proof -
  define bill where "bill = Print_bill 1767269400 ''2026-01-01 12:10:00'' ''2026-01-01 12:10:01''"
  define s1 where "s1 = snd (step bill sample_app)"
  define es where "es = [Open_table 2, Mark_prepared (Some 3), Remove_selected (Some 3),
             Free_table True,
             Print_bill 1767269500 ''2026-01-01 12:11:40'' ''2026-01-01 12:11:41'']"
  have pre: "selected_table sample_app = Some 1 \<and> table_lines 1 (store sample_app) \<noteq> [] \<and>
      sales (store sample_app) = []"
    by code_simp
  have post: "length (sales (store (run es s1))) = 1 \<and>
      init_db (store (run es s1)) = Inr (store (run es s1))"
    unfolding es_def s1_def bill_def by code_simp
  from pre sales_append_only [of bill sample_app "[]" "store (run es s1)" "store (run es s1)"
      1 0 "[]" "[]"]
  obtain sale where sale: "s_table_no sale = 1" "sales (store s1) = [sale]"
    unfolding s1_def by (auto simp: bill_def)
  from sale have one: "map s_table_no (sales (store s1)) = [1]"
    by simp
  note th = sales_append_only [of "Open_table 2" s1 es "store (run es s1)" "store (run es s1)"
      1 0 "[]" "[]"]
  from th have pf: "prefix (sales (store s1)) (sales (store (run es s1)))"
    by blast
  from sale(2) post have "length (sales (store s1)) = length (sales (store (run es s1)))"
    by simp
  with pf have same: "sales (store (run es s1)) = sales (store s1)"
    by (auto simp: prefix_def)
  from pre post(1) one pf same post show ?thesis
    unfolding Let_def bill_def [symmetric] s1_def [symmetric] es_def [symmetric] by simp
qed

subsection \<open>C9: seeding at startup\<close>

text \<open>
  C9. \<^verbatim>\<open>init_db\<close> succeeds on every store. If the tables collection is empty it is seeded
  with exactly the eight tables 1..8, each free; if the menu collection is empty it is seeded
  with the nine items of the sample menu, whose categories are Pizza, Burger, Pasta,
  Beverage, Sides and Salad. A collection that is not empty is left as it is, and so are the
  orders and the sales.
\<close>

theorem init_db_seeds:
  "\<exists>d'. init_db d = Inr d' \<and>
     (if tables d = []
      then map (\<lambda>r. (t_table_no r, t_status r)) (tables d') =
             map (\<lambda>t. (t, ''free'')) [1, 2, 3, 4, 5, 6, 7, 8]
      else tables d' = tables d) \<and>
     (if menu d = []
      then map (\<lambda>r. (m_name r, m_price r, m_category r)) (menu d') = sample_menu \<and>
           length (menu d') = 9 \<and>
           set (map m_category (menu d')) =
             {''Pizza'', ''Burger'', ''Pasta'', ''Beverage'', ''Sides'', ''Salad''}
      else menu d' = menu d) \<and>
     orders d' = orders d \<and> sales d' = sales d"
proof -
  obtain d1 where d1: "(if length (tables d) = 0 then seed_tables [1..8] d else Inr d) = Inr d1"
    and t1: "if tables d = []
      then map (\<lambda>r. (t_table_no r, t_status r)) (tables d1) =
             map (\<lambda>t. (t, ''free'')) [1, 2, 3, 4, 5, 6, 7, 8]
      else tables d1 = tables d"
    and f1: "menu d1 = menu d" "orders d1 = orders d" "sales d1 = sales d"
  proof (cases "tables d = []")
    case True
    from seed_tables_fresh [OF True] obtain d' where
      "seed_tables [1..8] d = Inr d'"
      "map (\<lambda>r. (t_table_no r, t_status r)) (tables d') = map (\<lambda>t. (t, ''free'')) [1..8]"
      "menu d' = menu d" "orders d' = orders d" "sales d' = sales d"
      by blast
    with True that [of d'] show ?thesis by (simp add: upto_rec1)
  next
    case False
    with that [of d] show ?thesis by simp
  qed
  define d2 where "d2 = (if length (menu d1) = 0 then seed_menu sample_menu d1 else d1)"
  have run: "init_db d = Inr d2"
    using d1 by (simp add: init_db_def d2_def)
  have m2: "if menu d = []
      then map (\<lambda>r. (m_name r, m_price r, m_category r)) (menu d2) = sample_menu \<and>
           length (menu d2) = 9 \<and>
           set (map m_category (menu d2)) =
             {''Pizza'', ''Burger'', ''Pasta'', ''Beverage'', ''Sides'', ''Salad''}
      else menu d2 = menu d"
  proof (cases "menu d = []")
    case True
    then have e: "menu d1 = []" by (simp add: f1)
    from seed_menu_fresh [OF e]
    have rows: "map (\<lambda>r. (m_name r, m_price r, m_category r)) (menu d2) = sample_menu"
      by (simp add: d2_def e)
    from arg_cong [OF rows, of length] have len: "length (menu d2) = 9"
      by (simp add: sample_menu_categories)
    from arg_cong [OF rows, of "\<lambda>xs. set (map (\<lambda>(name, price, category). category) xs)"]
      sample_menu_categories
    have "set (map m_category (menu d2)) =
             {''Pizza'', ''Burger'', ''Pasta'', ''Beverage'', ''Sides'', ''Salad''}"
      by (simp add: comp_def)
    with True rows len show ?thesis by simp
  next
    case False
    then show ?thesis by (simp add: d2_def f1)
  qed
  have rest: "tables d2 = tables d1" "orders d2 = orders d" "sales d2 = sales d"
    using seed_menu_fresh [of d1] by (auto simp: d2_def f1)
  from t1 rest have t2: "if tables d = []
      then map (\<lambda>r. (t_table_no r, t_status r)) (tables d2) =
             map (\<lambda>t. (t, ''free'')) [1, 2, 3, 4, 5, 6, 7, 8]
      else tables d2 = tables d"
    by simp
  from run t2 m2 rest(2,3) show ?thesis by blast
qed

text \<open>
  An instance: the first start on a fresh database file, and a second start on the store
  it leaves.
\<close>

theorem init_db_seeds_witness:
  "\<exists>d'. init_db fresh_db = Inr d' \<and>
     get_tables d' = [(1, ''free''), (2, ''free''), (3, ''free''), (4, ''free''),
                      (5, ''free''), (6, ''free''), (7, ''free''), (8, ''free'')] \<and>
     length (menu d') = 9 \<and> init_db d' = Inr d'"
proof -
  have e: "tables fresh_db = [] \<and> menu fresh_db = []"
    by (simp add: fresh_db_def)
  from init_db_seeds [of fresh_db] e obtain d' where
    d': "init_db fresh_db = Inr d'" "length (menu d') = 9"
    by auto
  have c: "init_db fresh_db = Inr seeded_db \<and>
     get_tables seeded_db = [(1, ''free''), (2, ''free''), (3, ''free''), (4, ''free''),
                      (5, ''free''), (6, ''free''), (7, ''free''), (8, ''free'')] \<and>
     init_db seeded_db = Inr seeded_db"
    by code_simp
  with d' show ?thesis by auto
qed

subsection \<open>C10: the grand total of a receipt\<close>

text \<open>
  C10. The grand total that \<^verbatim>\<open>generate_receipt_pdf\<close> returns depends on its subtotal and
  tax percent only: two calls with the same subtotal and tax percent return the same grand
  total, whatever their items, table numbers and clock readings are, and that total is
  \<open>subtotal + subtotal * tax_percent / 100\<close>. The sum \<^verbatim>\<open>total_amount\<close> of the line totals
  is not part of the result, so items that do not add up to the subtotal go unnoticed: one
  line of 3.00 with a subtotal of 100 and 5 percent tax gives 105.
\<close>

theorem generate_receipt_pdf_total_ignores_items:
  "snd (fst (generate_receipt_pdf t1 items1 subtotal tax_percent n1 now1 dir1)) =
     snd (fst (generate_receipt_pdf t2 items2 subtotal tax_percent n2 now2 dir2)) \<and>
   snd (fst (generate_receipt_pdf t1 items1 subtotal tax_percent n1 now1 dir1)) =
     subtotal + subtotal * tax_percent / 100 \<and>
   snd (fst (generate_receipt_pdf 1 [(''Coke'', 2, 1.5, 3)] 100 5 1767269400
               ''2026-01-01 12:10:00'' Map.empty)) = 105"
  by (simp add: generate_receipt_pdf_def Let_def split: prod.splits)

end
